theory Spec2Isabelle
  imports Main
begin

section \<open>Python text primitives used by \<open>nvenc_availability.py\<close>\<close>

text \<open>
  Text is a \<open>string\<close>; a \<open>char\<close> stands for a code point below 256. The output of
  the external tools is taken after \<open>decode()\<close>, as text. Integers are Python's
  unbounded ints (\<open>int\<close>).
\<close>

datatype error = ValueError

text \<open>\<open>str.isspace\<close> on code points below 256: TAB, LF, VT, FF, CR, FS, GS, RS, US,
  SPACE, NEL and NBSP.\<close>

definition whitespace :: "char list" where
  "whitespace = [CHR 0x09, CHR 0x0A, CHR 0x0B, CHR 0x0C, CHR 0x0D, CHR 0x1C, CHR 0x1D,
                 CHR 0x1E, CHR 0x1F, CHR 0x20, CHR 0x85, CHR 0xA0]"

definition isspace :: "char \<Rightarrow> bool" where
  "isspace c = (c \<in> set whitespace)"

text \<open>\<open>s.strip()\<close>: leading and trailing whitespace removed.\<close>

definition lstrip :: "string \<Rightarrow> string" where
  "lstrip s = dropWhile isspace s"

definition rstrip :: "string \<Rightarrow> string" where
  "rstrip s = rev (dropWhile isspace (rev s))"

definition strip :: "string \<Rightarrow> string" where
  "strip s = rstrip (lstrip s)"

text \<open>\<open>s.split(sep)\<close> for a one-character separator: the fields between the
  separators; the result is never the empty list.\<close>

function split_on :: "char \<Rightarrow> string \<Rightarrow> string list" where
  "split_on sep s =
     (case dropWhile (\<lambda>c. c \<noteq> sep) s of
        [] \<Rightarrow> [s]
      | _ # rest \<Rightarrow> takeWhile (\<lambda>c. c \<noteq> sep) s # split_on sep rest)"
  by pat_completeness auto
termination
proof (relation "measure (\<lambda>(sep, s). length s)")
  show "wf (measure (\<lambda>(sep, s). length s))" by simp
next
  fix sep :: char and s :: string and x21 :: char and x22 :: string
  assume a: "dropWhile (\<lambda>c. c \<noteq> sep) s = x21 # x22"
  have "length (dropWhile (\<lambda>c. c \<noteq> sep) s) \<le> length s"
    by (rule length_dropWhile_le)
  with a show "((sep, x22), (sep, s)) \<in> measure (\<lambda>(sep, s). length s)"
    by simp
qed

declare split_on.simps [simp del]

text \<open>\<open>sub in s\<close> on strings: \<open>sub\<close> occurs in \<open>s\<close> as a contiguous substring.\<close>

fun contains :: "string \<Rightarrow> string \<Rightarrow> bool" where
  "contains sub [] = (sub = [])"
| "contains sub (c # cs) = (take (length sub) (c # cs) = sub \<or> contains sub cs)"

text \<open>The character classes of the two regular expressions: \<open>\d\<close>, \<open>[a-zA-Z0-9 -]\<close>
  and \<open>[a-zA-Z0-9-]\<close>.\<close>

definition isdigit :: "char \<Rightarrow> bool" where
  "isdigit c = (c \<in> set ''0123456789'')"

definition isalpha :: "char \<Rightarrow> bool" where
  "isalpha c = (c \<in> set ''abcdefghijklmnopqrstuvwxyzABCDEFGHIJKLMNOPQRSTUVWXYZ'')"

definition name_char :: "char \<Rightarrow> bool" where
  "name_char c = (isalpha c \<or> isdigit c \<or> c = CHR '' '' \<or> c = CHR ''-'')"

definition uuid_char :: "char \<Rightarrow> bool" where
  "uuid_char c = (isalpha c \<or> isdigit c \<or> c = CHR ''-'')"

text \<open>
  \<open>int(digits)\<close> for a string of decimal digits, which is what the groups \<open>(\d+)\<close>
  of the two patterns capture. CPython refuses a string of more than
  \<open>sys.int_info.default_max_str_digits\<close> digits, leading zeros counted, with a
  \<open>ValueError\<close>.
\<close>

definition digit_val :: "char \<Rightarrow> int" where
  "digit_val c = int (of_char c) - 48"

definition int_of_digits :: "string \<Rightarrow> int" where
  "int_of_digits s = foldl (\<lambda>acc c. 10 * acc + digit_val c) 0 s"

definition int_max_str_digits :: nat where
  "int_max_str_digits = 4300"

definition py_int :: "string \<Rightarrow> error + int" where
  "py_int digits =
     (if length digits > int_max_str_digits then Inl ValueError
      else Inr (int_of_digits digits))"

text \<open>A list comprehension \<open>[f(x) for x in xs]\<close> where \<open>f\<close> may raise: the first
  call that raises ends it.\<close>

fun comprehension :: "('a \<Rightarrow> error + 'b) \<Rightarrow> 'a list \<Rightarrow> error + 'b list" where
  "comprehension f [] = Inr []"
| "comprehension f (x # xs) =
     (case f x of
        Inl e \<Rightarrow> Inl e
      | Inr y \<Rightarrow>
          (case comprehension f xs of
             Inl e \<Rightarrow> Inl e
           | Inr ys \<Rightarrow> Inr (y # ys)))"

text \<open>A literal piece of a pattern: the rest of the subject after it, if it is there.\<close>

definition expect :: "string \<Rightarrow> string \<Rightarrow> string option" where
  "expect lit s = (if take (length lit) s = lit then Some (drop (length lit) s) else None)"

text \<open>\<open>min\<close> and \<open>max\<close> of a list raise \<open>ValueError\<close> on the empty list.\<close>

fun py_min :: "int list \<Rightarrow> error + int" where
  "py_min [] = Inl ValueError"
| "py_min (x # xs) = Inr (fold min xs x)"

fun py_max :: "int list \<Rightarrow> error + int" where
  "py_max [] = Inl ValueError"
| "py_max (x # xs) = Inr (fold max xs x)"

text \<open>\<open>d.get(key, default)\<close> on a dictionary.\<close>

definition dict_get :: "('k \<rightharpoonup> 'v) \<Rightarrow> 'k \<Rightarrow> 'v \<Rightarrow> 'v" where
  "dict_get d key dflt = (case d key of None \<Rightarrow> dflt | Some v \<Rightarrow> v)"

section \<open>The reference dataset\<close>

text \<open>
  Modelled from the spec: the module \<open>nvenc_dataset\<close> imported by \<open>NvidiaGPU\<close> is not
  part of the sources. It is taken as a parameter: four dictionaries, \<open>NONE\<close> and
  \<open>AMBIG\<close> from model names to a marker (only their keys are read), \<open>COMPAT\<close> from
  model names to a sequence of core-type tags, and \<open>NVENC_CORES_H264\<close> from core-type
  tags to a number of cores.
\<close>

record dataset =
  NONE :: "string \<rightharpoonup> unit"
  AMBIG :: "string \<rightharpoonup> unit"
  COMPAT :: "string \<rightharpoonup> string list"
  NVENC_CORES_H264 :: "string \<rightharpoonup> int"

section \<open>\<open>find_command\<close>\<close>

text \<open>
  \<open>subprocess.run(args, shell=True, capture_output=True)\<close> is the environment: a
  function from the argument list to the completed process.
\<close>

record completed_process =
  returncode :: int
  stdout :: string
  stderr :: string

type_synonym runner = "string list \<Rightarrow> completed_process"

definition find_command :: "runner \<Rightarrow> string \<Rightarrow> string option" where
  "find_command run cmd =
     (let proc = run [''where'', cmd] in
      if returncode proc \<noteq> 0 then None
      else
        let commands = map strip (split_on CHR 0x0A (stdout proc)) in
        if length commands = 0 then None
        else (case commands of c # _ \<Rightarrow> Some c | [] \<Rightarrow> None))"

section \<open>\<open>NvidiaGPU\<close>\<close>

record NvidiaGPU =
  index :: int
  name :: string
  uuid :: string

text \<open>
  \<open>NAME_PATTERN.match(s)\<close> for \<open>GPU (\d+): ([a-zA-Z0-9 -]+) \(UUID: ([a-zA-Z0-9-]+)\)\<close>:
  the three groups, when a prefix of \<open>s\<close> matches. The character after each group is
  outside the group's class, except for the name, whose class has the space that
  follows it: the name is the longest run of its class without the final space.
\<close>

definition NAME_PATTERN_match :: "string \<Rightarrow> (string \<times> string \<times> string) option" where
  "NAME_PATTERN_match s =
     (case expect ''GPU '' s of
        None \<Rightarrow> None
      | Some s1 \<Rightarrow>
          if takeWhile isdigit s1 = [] then None
          else
            (case expect '': '' (dropWhile isdigit s1) of
               None \<Rightarrow> None
             | Some s2 \<Rightarrow>
                 if length (takeWhile name_char s2) < 2
                    \<or> last (takeWhile name_char s2) \<noteq> CHR '' '' then None
                 else
                   (case expect ''(UUID: '' (dropWhile name_char s2) of
                      None \<Rightarrow> None
                    | Some s3 \<Rightarrow>
                        if takeWhile uuid_char s3 = [] then None
                        else
                          (case expect '')'' (dropWhile uuid_char s3) of
                             None \<Rightarrow> None
                           | Some _ \<Rightarrow>
                               Some (takeWhile isdigit s1,
                                     butlast (takeWhile name_char s2),
                                     takeWhile uuid_char s3)))))"

definition unknown_gpu :: NvidiaGPU where
  "unknown_gpu = \<lparr>index = -1, name = ''<unknown>'', uuid = ''0''\<rparr>"

definition parse :: "string \<Rightarrow> error + NvidiaGPU" where
  "parse line =
     (case NAME_PATTERN_match (strip line) of
        None \<Rightarrow> Inr unknown_gpu
      | Some (g1, g2, g3) \<Rightarrow>
          (case py_int g1 of
             Inl e \<Rightarrow> Inl e
           | Inr i \<Rightarrow> Inr \<lparr>index = i, name = g2, uuid = g3\<rparr>))"

definition has_nvenc_h264 :: "dataset \<Rightarrow> NvidiaGPU \<Rightarrow> error + bool" where
  "has_nvenc_h264 ds self =
     (if contains ''Quadro'' (name self) \<or> contains ''NVS'' (name self)
         \<or> contains ''Tesla'' (name self) then Inr True
      else if NONE ds (name self) \<noteq> None then Inr False
      else if AMBIG ds (name self) \<noteq> None then Inr True
      else
        (case COMPAT ds (name self) of
           None \<Rightarrow> Inr False
         | Some coretypes \<Rightarrow>
             let n_cores = map (\<lambda>coretype. dict_get (NVENC_CORES_H264 ds) coretype 0)
                               coretypes in
             (case py_min n_cores of
                Inl e \<Rightarrow> Inl e
              | Inr min_cores \<Rightarrow>
                  (case py_max n_cores of
                     Inl e \<Rightarrow> Inl e
                   | Inr max_cores \<Rightarrow> Inr (max_cores > 0)))))"

section \<open>\<open>number_of_nvenc_gpus\<close>\<close>

text \<open>
  \<open>pattern.search(line)\<close> for \<open>Driver Version: (\d+(\.\d+)?)\<close>: group 1 of the
  leftmost match. At a position the literal is followed by the longest run of digits,
  and by a dot and the longest run of digits after it when there is one.
\<close>

definition version_match_at :: "string \<Rightarrow> string option" where
  "version_match_at s =
     (case expect ''Driver Version: '' s of
        None \<Rightarrow> None
      | Some s1 \<Rightarrow>
          if takeWhile isdigit s1 = [] then None
          else
            (case dropWhile isdigit s1 of
               [] \<Rightarrow> Some (takeWhile isdigit s1)
             | c # s2 \<Rightarrow>
                 if c = CHR ''.'' \<and> takeWhile isdigit s2 \<noteq> []
                 then Some (takeWhile isdigit s1 @ ''.'' @ takeWhile isdigit s2)
                 else Some (takeWhile isdigit s1)))"

fun version_search :: "string \<Rightarrow> string option" where
  "version_search [] = version_match_at []"
| "version_search (c # cs) =
     (case version_match_at (c # cs) of
        Some v \<Rightarrow> Some v
      | None \<Rightarrow> version_search cs)"

text \<open>The loop over the lines of the output, left at the first line that matches.\<close>

fun driver_version :: "string list \<Rightarrow> string option" where
  "driver_version [] = None"
| "driver_version (line # out) =
     (case version_search line of
        Some v \<Rightarrow> Some v
      | None \<Rightarrow> driver_version out)"

text \<open>\<open>major, minor = [int(digits) for digits in version.split(".")]\<close>: the list
  is built first, and unpacking a list that does not have exactly two elements raises
  \<open>ValueError\<close>.\<close>

definition version_numbers :: "string \<Rightarrow> error + int \<times> int" where
  "version_numbers version =
     (case comprehension py_int (split_on CHR ''.'' version) of
        Inl e \<Rightarrow> Inl e
      | Inr numbers \<Rightarrow>
          (case numbers of
             [major, minor] \<Rightarrow> Inr (major, minor)
           | _ \<Rightarrow> Inl ValueError))"

text \<open>The stripped, non-blank lines of a tool's output.\<close>

definition nonblank_lines :: "string \<Rightarrow> string list" where
  "nonblank_lines text =
     map strip (filter (\<lambda>line. length (strip line) > 0) (split_on CHR 0x0A text))"

text \<open>\<open>[core for core in GPUs if core.has_nvenc_h264()]\<close>: the first call that raises
  ends the comprehension.\<close>

fun nvenc_gpus :: "dataset \<Rightarrow> NvidiaGPU list \<Rightarrow> error + NvidiaGPU list" where
  "nvenc_gpus ds [] = Inr []"
| "nvenc_gpus ds (core # GPUs) =
     (case has_nvenc_h264 ds core of
        Inl e \<Rightarrow> Inl e
      | Inr b \<Rightarrow>
          (case nvenc_gpus ds GPUs of
             Inl e \<Rightarrow> Inl e
           | Inr cores \<Rightarrow> Inr (if b then core # cores else cores)))"

text \<open>The list \<open>GPUs\<close> built from the output of \<open>nvidia-smi -L\<close>.\<close>

definition GPUs :: "string \<Rightarrow> error + NvidiaGPU list" where
  "GPUs text = comprehension parse (nonblank_lines text)"

text \<open>
  The result of \<open>number_of_nvenc_gpus\<close> together with the commands it has run, in
  order.
\<close>

definition number_of_nvenc_gpus :: "dataset \<Rightarrow> runner \<Rightarrow> (error + int) \<times> string list list" where
  "number_of_nvenc_gpus ds run =
     (case find_command run ''nvidia-smi'' of
        None \<Rightarrow> (Inr 0, [[''where'', ''nvidia-smi'']])
      | Some nvidia_smi \<Rightarrow>
          let proc = run [nvidia_smi];
              ran = [[''where'', ''nvidia-smi''], [nvidia_smi]] in
          if returncode proc \<noteq> 0 then (Inr 0, ran)
          else
            (case driver_version (nonblank_lines (stdout proc)) of
               None \<Rightarrow> (Inr 0, ran)
             | Some version \<Rightarrow>
                 (case version_numbers version of
                    Inl e \<Rightarrow> (Inl e, ran)
                  | Inr (major, minor) \<Rightarrow>
                      if major < 450 then (Inr 0, ran)
                      else
                        let proc = run [nvidia_smi, ''-L''];
                            ran = ran @ [[nvidia_smi, ''-L'']] in
                        if returncode proc \<noteq> 0 then (Inr 0, ran)
                        else
                          (case GPUs (stdout proc) of
                             Inl e \<Rightarrow> (Inl e, ran)
                           | Inr gpus \<Rightarrow>
                               (case nvenc_gpus ds gpus of
                                  Inl e \<Rightarrow> (Inl e, ran)
                                | Inr cores \<Rightarrow> (Inr (int (length cores)), ran))))))"

section \<open>Reference points for the properties\<close>

text \<open>
  The text \<open>GPU <d>: <n> (UUID: <u>)\<close> followed by \<open>t\<close>: what \<open>NAME_PATTERN\<close>
  describes, with its three groups and the text after the closing parenthesis.
\<close>

definition gpu_line :: "string \<Rightarrow> string \<Rightarrow> string \<Rightarrow> string \<Rightarrow> string" where
  "gpu_line d n u t = ''GPU '' @ d @ '': '' @ n @ '' (UUID: '' @ u @ '')'' @ t"

text \<open>
  A small dataset in the format of \<open>nvenc_dataset\<close>, for concrete evaluations. One
  model has a professional brand name and is listed as having no core, one model maps
  to two core types of which one has no core, and one maps to no core type at all.
\<close>

definition sample_dataset :: dataset where
  "sample_dataset =
     \<lparr>NONE = [''GeForce GT 1030'' \<mapsto> (), ''Quadro 600'' \<mapsto> ()],
      AMBIG = [''GeForce GTX 780 Ti'' \<mapsto> ()],
      COMPAT = [''GeForce RTX 3080'' \<mapsto> [''7th Gen''],
                ''GeForce GT 740'' \<mapsto> [''None'', ''1st Gen''],
                ''GeForce GT 730'' \<mapsto> [''None'', ''Unlisted''],
                ''GeForce Void'' \<mapsto> []],
      NVENC_CORES_H264 = [''None'' \<mapsto> 0, ''1st Gen'' \<mapsto> 1, ''7th Gen'' \<mapsto> 1]\<rparr>"

text \<open>
  An environment where \<open>where nvidia-smi\<close> prints \<open>found\<close>, and the tool at the path
  \<open>nvidia-smi.exe\<close> prints \<open>banner\<close> without arguments and \<open>listing\<close> with \<open>-L\<close>,
  every command ending with code 0; any other command ends with code 1.
\<close>

definition sample_run :: "string \<Rightarrow> string \<Rightarrow> string \<Rightarrow> runner" where
  "sample_run found banner listing args =
     (if args = [''where'', ''nvidia-smi'']
      then \<lparr>returncode = 0, stdout = found, stderr = ''''\<rparr>
      else if args = [''nvidia-smi.exe'']
      then \<lparr>returncode = 0, stdout = banner, stderr = ''''\<rparr>
      else if args = [''nvidia-smi.exe'', ''-L'']
      then \<lparr>returncode = 0, stdout = listing, stderr = ''''\<rparr>
      else \<lparr>returncode = 1, stdout = '''', stderr = ''''\<rparr>)"

section \<open>Facts about the primitives\<close>

lemma contains_iff: "contains sub s \<longleftrightarrow> (\<exists>ps ss. s = ps @ sub @ ss)"
proof (induction s)
  case Nil
  show ?case by auto
next
  case (Cons c cs)
  have here: "take (length sub) (c # cs) = sub \<longleftrightarrow> (\<exists>ss. c # cs = sub @ ss)"
  proof
    assume "take (length sub) (c # cs) = sub"
    then have "c # cs = sub @ drop (length sub) (c # cs)"
      by (metis append_take_drop_id)
    then show "\<exists>ss. c # cs = sub @ ss" ..
  next
    assume "\<exists>ss. c # cs = sub @ ss"
    then obtain ss where "c # cs = sub @ ss" ..
    then show "take (length sub) (c # cs) = sub" by simp
  qed
  have later: "(\<exists>ps ss. c # cs = ps @ sub @ ss)
      \<longleftrightarrow> (\<exists>ss. c # cs = sub @ ss) \<or> (\<exists>ps ss. cs = ps @ sub @ ss)"
  proof
    assume "\<exists>ps ss. c # cs = ps @ sub @ ss"
    then obtain ps ss where e: "c # cs = ps @ sub @ ss" by blast
    show "(\<exists>ss. c # cs = sub @ ss) \<or> (\<exists>ps ss. cs = ps @ sub @ ss)"
    proof (cases ps)
      case Nil
      with e show ?thesis by auto
    next
      case (Cons p ps')
      with e have "cs = ps' @ sub @ ss" by simp
      then show ?thesis by blast
    qed
  next
    assume "(\<exists>ss. c # cs = sub @ ss) \<or> (\<exists>ps ss. cs = ps @ sub @ ss)"
    then show "\<exists>ps ss. c # cs = ps @ sub @ ss"
    proof
      assume "\<exists>ss. c # cs = sub @ ss"
      then obtain ss where "c # cs = [] @ sub @ ss" by auto
      then show ?thesis by blast
    next
      assume "\<exists>ps ss. cs = ps @ sub @ ss"
      then obtain ps ss where "cs = ps @ sub @ ss" by blast
      then have "c # cs = (c # ps) @ sub @ ss" by simp
      then show ?thesis by blast
    qed
  qed
  from here later Cons.IH show ?case by simp
qed

lemma py_max_eq: "py_max xs = (if xs = [] then Inl ValueError else Inr (Max (set xs)))"
  by (cases xs) (simp_all add: Max.set_eq_fold [symmetric])

lemma py_min_eq: "py_min xs = (if xs = [] then Inl ValueError else Inr (Min (set xs)))"
  by (cases xs) (simp_all add: Min.set_eq_fold [symmetric])

lemma expect_Some: "expect lit s = Some r \<longleftrightarrow> s = lit @ r"
  unfolding expect_def
  by (metis append_eq_conv_conj option.distinct(1) option.inject)

lemma takeWhile_stop:
  "list_all P xs \<Longrightarrow> \<not> P y \<Longrightarrow> takeWhile P (xs @ y # ys) = xs"
  by (induction xs) simp_all

lemma dropWhile_stop:
  "list_all P xs \<Longrightarrow> \<not> P y \<Longrightarrow> dropWhile P (xs @ y # ys) = y # ys"
  by (induction xs) simp_all

lemma list_all_takeWhile: "list_all P (takeWhile P xs)"
  by (induction xs) simp_all

text \<open>The branch of \<open>has_nvenc_h264\<close> for a registered model, in closed form.\<close>

lemma has_nvenc_h264_registered:
  assumes "\<not> contains ''Quadro'' (name g)" "\<not> contains ''NVS'' (name g)"
    and "\<not> contains ''Tesla'' (name g)"
    and "NONE ds (name g) = None" "AMBIG ds (name g) = None"
    and "COMPAT ds (name g) = Some coretypes"
  shows "has_nvenc_h264 ds g =
    (if coretypes = [] then Inl ValueError
     else Inr (0 < Max (set (map (\<lambda>coretype. dict_get (NVENC_CORES_H264 ds) coretype 0)
                                  coretypes))))"
  using assms by (simp add: has_nvenc_h264_def py_min_eq py_max_eq)

section \<open>The capability resolver\<close>

text \<open>
  C3. A GPU whose name contains \<open>Quadro\<close>, \<open>NVS\<close> or \<open>Tesla\<close> has NVENC according to
  \<open>has_nvenc_h264\<close>, whatever the dataset says about the name: there is no
  condition on \<open>NONE\<close>, \<open>AMBIG\<close> or \<open>COMPAT\<close>.
\<close>

theorem brand_override_true:
  "contains ''Quadro'' (name g) \<or> contains ''NVS'' (name g) \<or> contains ''Tesla'' (name g)
   \<Longrightarrow> has_nvenc_h264 ds g = Inr True"
  by (simp add: has_nvenc_h264_def)

theorem brand_override_true_witness:
  "(contains ''Quadro'' (name \<lparr>index = 0, name = ''Quadro 600'', uuid = ''GPU-0''\<rparr>)
    \<or> contains ''NVS'' (name \<lparr>index = 0, name = ''Quadro 600'', uuid = ''GPU-0''\<rparr>)
    \<or> contains ''Tesla'' (name \<lparr>index = 0, name = ''Quadro 600'', uuid = ''GPU-0''\<rparr>))
   \<and> NONE sample_dataset ''Quadro 600'' \<noteq> None
   \<and> has_nvenc_h264 sample_dataset \<lparr>index = 0, name = ''Quadro 600'', uuid = ''GPU-0''\<rparr>
       = Inr True"
proof -
  have h: "contains ''Quadro'' (name \<lparr>index = 0, name = ''Quadro 600'', uuid = ''GPU-0''\<rparr>)"
    by simp
  have k: "NONE sample_dataset ''Quadro 600'' \<noteq> None"
    by (simp add: sample_dataset_def)
  from h k brand_override_true [of "\<lparr>index = 0, name = ''Quadro 600'', uuid = ''GPU-0''\<rparr>"
      sample_dataset]
  show ?thesis by blast
qed

text \<open>
  C4. A GPU whose name contains none of \<open>Quadro\<close>, \<open>NVS\<close>, \<open>Tesla\<close> and is a key of
  none of \<open>NONE\<close>, \<open>AMBIG\<close>, \<open>COMPAT\<close> has no NVENC according to \<open>has_nvenc_h264\<close>.
\<close>

theorem unregistered_false:
  "\<not> contains ''Quadro'' (name g) \<Longrightarrow> \<not> contains ''NVS'' (name g)
   \<Longrightarrow> \<not> contains ''Tesla'' (name g)
   \<Longrightarrow> name g \<notin> dom (NONE ds) \<Longrightarrow> name g \<notin> dom (AMBIG ds) \<Longrightarrow> name g \<notin> dom (COMPAT ds)
   \<Longrightarrow> has_nvenc_h264 ds g = Inr False"
  by (simp add: has_nvenc_h264_def dom_def)

theorem unregistered_false_witness:
  "has_nvenc_h264 sample_dataset \<lparr>index = 1, name = ''GeForce 256'', uuid = ''GPU-1''\<rparr>
     = Inr False"
  by (rule unregistered_false) (simp_all add: sample_dataset_def dom_def)

text \<open>
  C2, as stated, fails: a key of \<open>NONE\<close> that contains a brand substring is answered
  by the brand override, which comes first.
\<close>

theorem none_key_true_counterexample:
  "name \<lparr>index = 0, name = ''Quadro 600'', uuid = ''GPU-0''\<rparr> \<in> dom (NONE sample_dataset)
   \<and> has_nvenc_h264 sample_dataset \<lparr>index = 0, name = ''Quadro 600'', uuid = ''GPU-0''\<rparr>
       \<noteq> Inr False"
  by (simp add: sample_dataset_def has_nvenc_h264_def)

text \<open>
  C2, amended. A GPU whose name is a key of \<open>NONE\<close> and contains none of \<open>Quadro\<close>,
  \<open>NVS\<close>, \<open>Tesla\<close> has no NVENC according to \<open>has_nvenc_h264\<close>.
\<close>

theorem none_key_false:
  "\<not> contains ''Quadro'' (name g) \<Longrightarrow> \<not> contains ''NVS'' (name g)
   \<Longrightarrow> \<not> contains ''Tesla'' (name g)
   \<Longrightarrow> name g \<in> dom (NONE ds) \<Longrightarrow> has_nvenc_h264 ds g = Inr False"
  by (auto simp add: has_nvenc_h264_def)

theorem none_key_false_witness:
  "name \<lparr>index = 0, name = ''GeForce GT 1030'', uuid = ''GPU-0''\<rparr> \<in> dom (NONE sample_dataset)
   \<and> has_nvenc_h264 sample_dataset \<lparr>index = 0, name = ''GeForce GT 1030'', uuid = ''GPU-0''\<rparr>
       = Inr False"
proof -
  let ?g = "\<lparr>index = 0, name = ''GeForce GT 1030'', uuid = ''GPU-0''\<rparr>"
  have k: "name ?g \<in> dom (NONE sample_dataset)"
    by (simp add: sample_dataset_def)
  have "has_nvenc_h264 sample_dataset ?g = Inr False"
    by (rule none_key_false [OF _ _ _ k]) simp_all
  with k show ?thesis by simp
qed

text \<open>
  C1. For a GPU whose name is a key of \<open>COMPAT\<close> and that no earlier rule answers,
  \<open>has_nvenc_h264\<close> takes the core count of each core-type tag from
  \<open>NVENC_CORES_H264\<close>, 0 for a tag that is not there, and returns \<open>True\<close> exactly when
  these counts have a maximum and it is greater than 0. When there is at least one tag
  the result is the boolean \<open>0 < maximum\<close>.
\<close>

theorem registered_max_cores:
  "\<not> contains ''Quadro'' (name g) \<Longrightarrow> \<not> contains ''NVS'' (name g)
   \<Longrightarrow> \<not> contains ''Tesla'' (name g)
   \<Longrightarrow> name g \<notin> dom (NONE ds) \<Longrightarrow> name g \<notin> dom (AMBIG ds)
   \<Longrightarrow> COMPAT ds (name g) = Some coretypes
   \<Longrightarrow> n_cores = map (\<lambda>coretype. case NVENC_CORES_H264 ds coretype of
                                      None \<Rightarrow> 0 | Some n \<Rightarrow> n) coretypes
   \<Longrightarrow> (has_nvenc_h264 ds g = Inr True \<longleftrightarrow> n_cores \<noteq> [] \<and> 0 < Max (set n_cores))
     \<and> (n_cores \<noteq> [] \<longrightarrow> has_nvenc_h264 ds g = Inr (0 < Max (set n_cores)))"
proof -
  assume a: "\<not> contains ''Quadro'' (name g)" "\<not> contains ''NVS'' (name g)"
    "\<not> contains ''Tesla'' (name g)" "name g \<notin> dom (NONE ds)" "name g \<notin> dom (AMBIG ds)"
    "COMPAT ds (name g) = Some coretypes"
    and n: "n_cores = map (\<lambda>coretype. case NVENC_CORES_H264 ds coretype of
                                      None \<Rightarrow> 0 | Some n \<Rightarrow> n) coretypes"
  from n have n': "n_cores = map (\<lambda>coretype. dict_get (NVENC_CORES_H264 ds) coretype 0) coretypes"
    by (simp add: dict_get_def)
  from a(4,5) have b: "NONE ds (name g) = None" "AMBIG ds (name g) = None"
    by blast+
  have "has_nvenc_h264 ds g =
    (if coretypes = [] then Inl ValueError else Inr (0 < Max (set n_cores)))"
    unfolding n' by (rule has_nvenc_h264_registered [OF a(1) a(2) a(3) b(1) b(2) a(6)])
  moreover have "n_cores = [] \<longleftrightarrow> coretypes = []" using n by simp
  ultimately show ?thesis by simp
qed

theorem registered_max_cores_witness:
  "has_nvenc_h264 sample_dataset \<lparr>index = 0, name = ''GeForce GT 740'', uuid = ''GPU-0''\<rparr> = Inr True
   \<and> Max (set [0, 1 :: int]) = 1
   \<and> has_nvenc_h264 sample_dataset \<lparr>index = 0, name = ''GeForce GT 730'', uuid = ''GPU-0''\<rparr> = Inr False
   \<and> Max (set [0, 0 :: int]) = 0"
proof -
  let ?g = "\<lparr>index = 0, name = ''GeForce GT 740'', uuid = ''GPU-0''\<rparr>"
  let ?h = "\<lparr>index = 0, name = ''GeForce GT 730'', uuid = ''GPU-0''\<rparr>"
  have g: "has_nvenc_h264 sample_dataset ?g = Inr (0 < Max (set [0, 1 :: int]))"
    using registered_max_cores [of ?g sample_dataset "[''None'', ''1st Gen'']" "[0, 1]"]
    by (simp add: sample_dataset_def)
  have h: "has_nvenc_h264 sample_dataset ?h = Inr (0 < Max (set [0, 0 :: int]))"
    using registered_max_cores [of ?h sample_dataset "[''None'', ''Unlisted'']" "[0, 0]"]
    by (simp add: sample_dataset_def)
  from g h show ?thesis by simp
qed

text \<open>
  C9. \<open>has_nvenc_h264\<close> returns a boolean for every GPU when every entry of \<open>COMPAT\<close>
  is a non-empty sequence of tags; for a GPU that no earlier rule answers and whose
  name \<open>COMPAT\<close> maps to the empty sequence, \<open>min\<close> of the empty list raises
  \<open>ValueError\<close> and no boolean is returned.
\<close>

theorem empty_coretypes_fail:
  "((\<forall>n coretypes. COMPAT ds n = Some coretypes \<longrightarrow> coretypes \<noteq> [])
      \<longrightarrow> (\<exists>b. has_nvenc_h264 ds g = Inr b))
   \<and> (\<not> contains ''Quadro'' (name g) \<and> \<not> contains ''NVS'' (name g)
        \<and> \<not> contains ''Tesla'' (name g)
        \<and> name g \<notin> dom (NONE ds) \<and> name g \<notin> dom (AMBIG ds) \<and> COMPAT ds (name g) = Some []
      \<longrightarrow> has_nvenc_h264 ds g = Inl ValueError)"
proof (intro conjI impI)
  assume ne: "\<forall>n coretypes. COMPAT ds n = Some coretypes \<longrightarrow> coretypes \<noteq> []"
  show "\<exists>b. has_nvenc_h264 ds g = Inr b"
  proof (cases "COMPAT ds (name g)")
    case None
    then show ?thesis by (auto simp add: has_nvenc_h264_def)
  next
    case (Some coretypes)
    with ne have "coretypes \<noteq> []" by blast
    with Some show ?thesis
      by (auto simp add: has_nvenc_h264_def py_min_eq py_max_eq)
  qed
next
  assume "\<not> contains ''Quadro'' (name g) \<and> \<not> contains ''NVS'' (name g)
        \<and> \<not> contains ''Tesla'' (name g)
        \<and> name g \<notin> dom (NONE ds) \<and> name g \<notin> dom (AMBIG ds) \<and> COMPAT ds (name g) = Some []"
  then show "has_nvenc_h264 ds g = Inl ValueError"
    by (simp add: has_nvenc_h264_def dom_def)
qed

theorem empty_coretypes_fail_witness:
  "has_nvenc_h264 sample_dataset \<lparr>index = 0, name = ''GeForce Void'', uuid = ''GPU-0''\<rparr>
     = Inl ValueError
   \<and> (\<exists>b. has_nvenc_h264 (sample_dataset\<lparr>COMPAT := [''GeForce Void'' \<mapsto> [''7th Gen'']]\<rparr>)
            \<lparr>index = 0, name = ''GeForce Void'', uuid = ''GPU-0''\<rparr> = Inr b)"
proof -
  let ?g = "\<lparr>index = 0, name = ''GeForce Void'', uuid = ''GPU-0''\<rparr>"
  let ?ds = "sample_dataset\<lparr>COMPAT := [''GeForce Void'' \<mapsto> [''7th Gen'']]\<rparr>"
  have "\<forall>n coretypes. COMPAT ?ds n = Some coretypes \<longrightarrow> coretypes \<noteq> []"
    by (auto simp add: sample_dataset_def split: if_splits)
  with empty_coretypes_fail [of ?ds ?g] have 1: "\<exists>b. has_nvenc_h264 ?ds ?g = Inr b"
    by blast
  have "\<not> contains ''Quadro'' (name ?g) \<and> \<not> contains ''NVS'' (name ?g)
        \<and> \<not> contains ''Tesla'' (name ?g)
        \<and> name ?g \<notin> dom (NONE sample_dataset) \<and> name ?g \<notin> dom (AMBIG sample_dataset)
        \<and> COMPAT sample_dataset (name ?g) = Some []"
    by (simp add: sample_dataset_def)
  with empty_coretypes_fail [of sample_dataset ?g]
  have 2: "has_nvenc_h264 sample_dataset ?g = Inl ValueError"
    by blast
  from 1 2 show ?thesis by blast
qed

section \<open>The parser of GPU lines\<close>

lemma NAME_PATTERN_match_complete:
  assumes d: "d \<noteq> []" "list_all isdigit d"
    and n: "n \<noteq> []" "list_all name_char n"
    and u: "u \<noteq> []" "list_all uuid_char u"
  shows "NAME_PATTERN_match (gpu_line d n u t) = Some (d, n, u)"
proof -
  let ?s3 = "u @ CHR '')'' # t"
  let ?s2 = "(n @ '' '') @ CHR ''('' # ''UUID: '' @ ?s3"
  let ?s1 = "d @ CHR '':'' # '' '' @ ?s2"
  have e1: "expect ''GPU '' (gpu_line d n u t) = Some ?s1"
    by (simp add: expect_Some gpu_line_def)
  have t1: "takeWhile isdigit ?s1 = d"
    and d1: "dropWhile isdigit ?s1 = CHR '':'' # '' '' @ ?s2"
    using d(2) by (rule takeWhile_stop dropWhile_stop, simp add: isdigit_def)+
  have e2: "expect '': '' (CHR '':'' # '' '' @ ?s2) = Some ?s2"
    by (simp add: expect_Some)
  have nn: "list_all name_char (n @ '' '')"
    using n(2) by (simp add: name_char_def)
  have t2: "takeWhile name_char ?s2 = n @ '' ''"
    and d2: "dropWhile name_char ?s2 = CHR ''('' # ''UUID: '' @ ?s3"
    using nn
    by (rule takeWhile_stop dropWhile_stop, simp add: name_char_def isalpha_def isdigit_def)+
  have e3: "expect ''(UUID: '' (CHR ''('' # ''UUID: '' @ ?s3) = Some ?s3"
    by (simp add: expect_Some)
  have t3: "takeWhile uuid_char ?s3 = u"
    and d3: "dropWhile uuid_char ?s3 = CHR '')'' # t"
    using u(2)
    by (rule takeWhile_stop dropWhile_stop, simp add: uuid_char_def isalpha_def isdigit_def)+
  have e4: "expect '')'' (CHR '')'' # t) = Some t"
    by (simp add: expect_Some)
  have l2: "\<not> length (n @ '' '') < 2"
    using n(1) by (cases n) simp_all
  show ?thesis
    unfolding NAME_PATTERN_match_def e1 option.case t1 d1 e2 t2 d2 e3 t3 d3 e4
    using d(1) u(1) l2 by simp
qed

lemma NAME_PATTERN_match_sound:
  assumes "NAME_PATTERN_match s = Some (d, n, u)"
  shows "\<exists>t. s = gpu_line d n u t \<and> d \<noteq> [] \<and> list_all isdigit d \<and> n \<noteq> []
    \<and> list_all name_char n \<and> u \<noteq> [] \<and> list_all uuid_char u"
proof -
  from assms obtain s1 s2 s3 t where
    e1: "expect ''GPU '' s = Some s1" and
    dd: "takeWhile isdigit s1 \<noteq> []" and
    e2: "expect '': '' (dropWhile isdigit s1) = Some s2" and
    ln: "\<not> length (takeWhile name_char s2) < 2" and
    la: "last (takeWhile name_char s2) = CHR '' ''" and
    e3: "expect ''(UUID: '' (dropWhile name_char s2) = Some s3" and
    uu: "takeWhile uuid_char s3 \<noteq> []" and
    e4: "expect '')'' (dropWhile uuid_char s3) = Some t" and
    r: "d = takeWhile isdigit s1" "n = butlast (takeWhile name_char s2)"
      "u = takeWhile uuid_char s3"
    unfolding NAME_PATTERN_match_def
    by (auto split: option.splits if_splits)
  let ?run = "takeWhile name_char s2"
  from ln have "?run \<noteq> []" by auto
  with la r(2) have run: "?run = n @ '' ''"
    by (metis append_butlast_last_id)
  have "s = ''GPU '' @ s1" using e1 by (simp add: expect_Some)
  also have "s1 = d @ dropWhile isdigit s1" using r(1) by simp
  also have "dropWhile isdigit s1 = '': '' @ s2" using e2 by (simp add: expect_Some)
  also have "s2 = ?run @ dropWhile name_char s2" by simp
  also have "dropWhile name_char s2 = ''(UUID: '' @ s3" using e3 by (simp add: expect_Some)
  also have "s3 = u @ dropWhile uuid_char s3" using r(3) by simp
  also have "dropWhile uuid_char s3 = '')'' @ t" using e4 by (simp add: expect_Some)
  finally have "s = gpu_line d n u t" by (simp add: gpu_line_def run)
  moreover have "list_all name_char (n @ '' '')"
    using run list_all_takeWhile [of name_char s2] by simp
  moreover have "n \<noteq> []" using ln run by auto
  ultimately show ?thesis
    using dd uu r(1,3) list_all_takeWhile [of isdigit s1] list_all_takeWhile [of uuid_char s3]
    by auto
qed

lemma strip_unchanged:
  assumes "s \<noteq> []" "\<not> isspace (hd s)" "\<not> isspace (last s)"
  shows "strip s = s"
proof -
  have l: "lstrip s = s"
    using assms(1,2) by (cases s) (simp_all add: lstrip_def)
  have "rev s \<noteq> []" "\<not> isspace (hd (rev s))"
    using assms(1,3) by (simp_all add: hd_rev)
  then have "dropWhile isspace (rev s) = rev s"
    by (cases "rev s") simp_all
  then have "rstrip s = s" by (simp add: rstrip_def)
  with l show ?thesis by (simp add: strip_def)
qed

lemma comprehension_Inr_iff:
  "comprehension f xs = Inr ys \<longleftrightarrow> map Inr ys = map f xs"
proof (induction xs arbitrary: ys)
  case Nil
  show ?case by auto
next
  case (Cons x xs)
  show ?case
  proof (cases "f x")
    case (Inl e)
    then show ?thesis by (cases ys) auto
  next
    case (Inr y)
    show ?thesis
    proof (cases "comprehension f xs")
      case (Inl e)
      with Cons.IH have "\<And>zs. map Inr zs \<noteq> map f xs" by simp
      with Inl Inr show ?thesis by (cases ys) auto
    next
      case r: (Inr zs)
      with Cons.IH [of zs] have m: "map Inr zs = map f xs" by simp
      have "map Inr ys = map f (x # xs) \<longleftrightarrow> ys = y # zs"
      proof
        assume e: "map Inr ys = map f (x # xs)"
        then obtain y' ys' where ys: "ys = y' # ys'" by (cases ys) auto
        with e Inr have "y' = y" and "map Inr ys' = map f xs" by auto
        with Cons.IH [of ys'] r have "ys' = zs" by simp
        with ys \<open>y' = y\<close> show "ys = y # zs" by simp
      next
        assume "ys = y # zs"
        with m Inr show "map Inr ys = map f (x # xs)" by simp
      qed
      with Inr r show ?thesis by auto
    qed
  qed
qed

text \<open>
  C10, as stated, fails for a line whose index has more digits than \<open>int\<close> converts:
  the pattern matches the line, and \<open>parse\<close> raises \<open>ValueError\<close> instead of
  returning a record.
\<close>

theorem parse_long_index_counterexample:
  "NAME_PATTERN_match
     (strip (gpu_line (replicate 4301 CHR ''1'') ''GeForce GTX 1080'' ''GPU-5678'' ''''))
     = Some (replicate 4301 CHR ''1'', ''GeForce GTX 1080'', ''GPU-5678'')
   \<and> parse (gpu_line (replicate 4301 CHR ''1'') ''GeForce GTX 1080'' ''GPU-5678'' '''')
     = Inl ValueError"
proof -
  let ?d = "replicate 4301 CHR ''1''"
  let ?line = "gpu_line ?d ''GeForce GTX 1080'' ''GPU-5678'' ''''"
  have s: "strip ?line = ?line"
    by (rule strip_unchanged) (simp_all add: gpu_line_def isspace_def whitespace_def)
  have d: "?d \<noteq> []" "list_all isdigit ?d"
    by (simp_all add: isdigit_def list_all_iff)
  have n: "''GeForce GTX 1080'' \<noteq> []" "list_all name_char ''GeForce GTX 1080''"
    by (simp_all add: name_char_def isalpha_def isdigit_def)
  have u: "''GPU-5678'' \<noteq> []" "list_all uuid_char ''GPU-5678''"
    by (simp_all add: uuid_char_def isalpha_def isdigit_def)
  have m: "NAME_PATTERN_match ?line = Some (?d, ''GeForce GTX 1080'', ''GPU-5678'')"
    using d n u by (rule NAME_PATTERN_match_complete)
  have "py_int ?d = Inl ValueError"
    by (simp add: py_int_def int_max_str_digits_def)
  with m s show ?thesis by (simp add: parse_def)
qed

text \<open>
  C10, amended. The pattern is anchored at the start of the stripped line only: when
  the stripped line is \<open>GPU <d>: <n> (UUID: <u>)\<close> followed by any text \<open>t\<close>, with \<open>d\<close>
  a non-empty run of digits, \<open>n\<close> a non-empty run of letters, digits, spaces and
  hyphens and \<open>u\<close> a non-empty run of letters, digits and hyphens, \<open>parse\<close> does not
  return the sentinel, and when \<open>d\<close> has at most 4300 digits it returns the regular
  record of \<open>d\<close>, \<open>n\<close> and \<open>u\<close>; \<open>t\<close> is ignored.
\<close>

theorem parse_ignores_trailing_text:
  "d \<noteq> [] \<Longrightarrow> list_all isdigit d \<Longrightarrow> n \<noteq> [] \<Longrightarrow> list_all name_char n
   \<Longrightarrow> u \<noteq> [] \<Longrightarrow> list_all uuid_char u
   \<Longrightarrow> strip line = gpu_line d n u t
   \<Longrightarrow> parse line \<noteq> Inr unknown_gpu
     \<and> (length d \<le> 4300
          \<longrightarrow> parse line = Inr \<lparr>index = int_of_digits d, name = n, uuid = u\<rparr>)"
proof -
  assume a: "d \<noteq> []" "list_all isdigit d" "n \<noteq> []" "list_all name_char n"
    "u \<noteq> []" "list_all uuid_char u" and l: "strip line = gpu_line d n u t"
  have m: "NAME_PATTERN_match (strip line) = Some (d, n, u)"
    unfolding l using a by (rule NAME_PATTERN_match_complete)
  have "\<not> list_all name_char ''<unknown>''"
    by (simp add: name_char_def isalpha_def isdigit_def)
  with a(4) have "n \<noteq> ''<unknown>''" by blast
  with m show ?thesis
    by (simp add: parse_def py_int_def int_max_str_digits_def unknown_gpu_def)
qed

theorem parse_ignores_trailing_text_witness:
  "parse ''  GPU 1: GeForce GTX 1080 (UUID: GPU-5678) [rev a1], 8 GiB ''
     = Inr \<lparr>index = 1, name = ''GeForce GTX 1080'', uuid = ''GPU-5678''\<rparr>
   \<and> parse ''  GPU 1: GeForce GTX 1080 (UUID: GPU-5678) [rev a1], 8 GiB '' \<noteq> Inr unknown_gpu"
proof -
  let ?line = "''  GPU 1: GeForce GTX 1080 (UUID: GPU-5678) [rev a1], 8 GiB ''"
  have d: "''1'' \<noteq> []" "list_all isdigit ''1''"
    by (simp_all add: isdigit_def)
  have n: "''GeForce GTX 1080'' \<noteq> []" "list_all name_char ''GeForce GTX 1080''"
    by (simp_all add: name_char_def isalpha_def isdigit_def)
  have u: "''GPU-5678'' \<noteq> []" "list_all uuid_char ''GPU-5678''"
    by (simp_all add: uuid_char_def isalpha_def isdigit_def)
  have l: "strip ?line = gpu_line ''1'' ''GeForce GTX 1080'' ''GPU-5678'' '' [rev a1], 8 GiB''"
    by (simp add: strip_def lstrip_def rstrip_def isspace_def whitespace_def gpu_line_def)
  have i: "int_of_digits ''1'' = 1" "length ''1'' \<le> 4300"
    by (simp_all add: int_of_digits_def digit_val_def)
  from parse_ignores_trailing_text [OF d n u l] i show ?thesis
    by (simp add: unknown_gpu_def)
qed

text \<open>
  C7. \<open>parse\<close> maps the line \<open>GPU 0: GeForce RTX 3080 (UUID: GPU-1234abcd)\<close> to the
  record with index 0, name \<open>GeForce RTX 3080\<close> and uuid \<open>GPU-1234abcd\<close>. A line of
  which no prefix (after stripping) has the form \<open>GPU <digits>: <name> (UUID: <uuid>)\<close>
  is mapped to the sentinel record (-1, \<open><unknown>\<close>, \<open>0\<close>). The list \<open>GPUs\<close> is the
  list of the records of all non-blank lines of the listing, in order, one for each
  line, the sentinel included, and \<open>has_nvenc_h264\<close> is false for the sentinel when
  \<open><unknown>\<close> is not a key of the dataset.
\<close>

theorem parse_line_or_sentinel:
  "parse ''GPU 0: GeForce RTX 3080 (UUID: GPU-1234abcd)''
     = Inr \<lparr>index = 0, name = ''GeForce RTX 3080'', uuid = ''GPU-1234abcd''\<rparr>
   \<and> ((\<forall>d n u t. d \<noteq> [] \<and> list_all isdigit d \<and> n \<noteq> [] \<and> list_all name_char n
            \<and> u \<noteq> [] \<and> list_all uuid_char u \<longrightarrow> strip line \<noteq> gpu_line d n u t)
        \<longrightarrow> parse line = Inr \<lparr>index = -1, name = ''<unknown>'', uuid = ''0''\<rparr>)
   \<and> (GPUs text = Inr gpus \<longleftrightarrow> map Inr gpus = map parse (nonblank_lines text))
   \<and> (GPUs text = Inr gpus \<longrightarrow> length gpus = length (nonblank_lines text))
   \<and> (GPUs text = Inr gpus \<and> item \<in> set (nonblank_lines text)
        \<longrightarrow> parse item \<in> Inr ` set gpus)
   \<and> (''<unknown>'' \<notin> dom (NONE ds) \<and> ''<unknown>'' \<notin> dom (AMBIG ds)
        \<and> ''<unknown>'' \<notin> dom (COMPAT ds)
        \<longrightarrow> has_nvenc_h264 ds \<lparr>index = -1, name = ''<unknown>'', uuid = ''0''\<rparr> = Inr False)"
proof (intro conjI impI)
  show "parse ''GPU 0: GeForce RTX 3080 (UUID: GPU-1234abcd)''
     = Inr \<lparr>index = 0, name = ''GeForce RTX 3080'', uuid = ''GPU-1234abcd''\<rparr>"
    by code_simp
next
  assume no: "\<forall>d n u t. d \<noteq> [] \<and> list_all isdigit d \<and> n \<noteq> [] \<and> list_all name_char n
            \<and> u \<noteq> [] \<and> list_all uuid_char u \<longrightarrow> strip line \<noteq> gpu_line d n u t"
  have "NAME_PATTERN_match (strip line) = None"
  proof (cases "NAME_PATTERN_match (strip line)")
    case None
    then show ?thesis .
  next
    case (Some g)
    obtain d n u where "g = (d, n, u)" by (cases g) auto
    with Some NAME_PATTERN_match_sound [of "strip line" d n u] no show ?thesis by blast
  qed
  then show "parse line = Inr \<lparr>index = -1, name = ''<unknown>'', uuid = ''0''\<rparr>"
    by (simp add: parse_def unknown_gpu_def)
next
  show "GPUs text = Inr gpus \<longleftrightarrow> map Inr gpus = map parse (nonblank_lines text)"
    by (simp add: GPUs_def comprehension_Inr_iff)
next
  assume "GPUs text = Inr gpus"
  then have "map Inr gpus = map parse (nonblank_lines text)"
    by (simp add: GPUs_def comprehension_Inr_iff)
  then show "length gpus = length (nonblank_lines text)"
    by (rule map_eq_imp_length_eq)
next
  assume "GPUs text = Inr gpus \<and> item \<in> set (nonblank_lines text)"
  then have m: "map Inr gpus = map parse (nonblank_lines text)"
    and i: "item \<in> set (nonblank_lines text)"
    by (simp_all add: GPUs_def comprehension_Inr_iff)
  from i have "parse item \<in> set (map parse (nonblank_lines text))" by simp
  with m have "parse item \<in> set (map Inr gpus)" by simp
  then show "parse item \<in> Inr ` set gpus" by simp
next
  assume "''<unknown>'' \<notin> dom (NONE ds) \<and> ''<unknown>'' \<notin> dom (AMBIG ds)
        \<and> ''<unknown>'' \<notin> dom (COMPAT ds)"
  then show "has_nvenc_h264 ds \<lparr>index = -1, name = ''<unknown>'', uuid = ''0''\<rparr> = Inr False"
    by (simp add: has_nvenc_h264_def dom_def)
qed

theorem parse_line_or_sentinel_witness:
  "parse ''GPU 0: GeForce RTX 3080 (GPU-1234abcd)''
     = Inr \<lparr>index = -1, name = ''<unknown>'', uuid = ''0''\<rparr>
   \<and> GPUs (''GPU 0: GeForce RTX 3080 (GPU-1234abcd)'' @ [CHR 0x0A])
     = Inr [\<lparr>index = -1, name = ''<unknown>'', uuid = ''0''\<rparr>]
   \<and> has_nvenc_h264 sample_dataset \<lparr>index = -1, name = ''<unknown>'', uuid = ''0''\<rparr> = Inr False"
proof -
  let ?line = "''GPU 0: GeForce RTX 3080 (GPU-1234abcd)''"
  let ?text = "?line @ [CHR 0x0A]"
  let ?gpus = "[\<lparr>index = -1, name = ''<unknown>'', uuid = ''0''\<rparr>]"
  note inst = parse_line_or_sentinel [of ?line ?text ?gpus ?line sample_dataset]
  have m: "NAME_PATTERN_match (strip ?line) = None"
    by code_simp
  have no: "\<forall>d n u t. d \<noteq> [] \<and> list_all isdigit d \<and> n \<noteq> [] \<and> list_all name_char n
            \<and> u \<noteq> [] \<and> list_all uuid_char u \<longrightarrow> strip ?line \<noteq> gpu_line d n u t"
  proof (intro allI impI notI)
    fix d n u t
    assume c: "d \<noteq> [] \<and> list_all isdigit d \<and> n \<noteq> [] \<and> list_all name_char n
            \<and> u \<noteq> [] \<and> list_all uuid_char u"
      and e: "strip ?line = gpu_line d n u t"
    from c have "NAME_PATTERN_match (gpu_line d n u t) = Some (d, n, u)"
      by (intro NAME_PATTERN_match_complete) simp_all
    with e m show False by simp
  qed
  with inst have p: "parse ?line = Inr \<lparr>index = -1, name = ''<unknown>'', uuid = ''0''\<rparr>"
    by blast
  have l: "nonblank_lines ?text = [?line]"
    by code_simp
  from inst have "GPUs ?text = Inr ?gpus \<longleftrightarrow> map Inr ?gpus = map parse (nonblank_lines ?text)"
    by blast
  with l p have g: "GPUs ?text = Inr ?gpus" by simp
  have k: "''<unknown>'' \<notin> dom (NONE sample_dataset) \<and> ''<unknown>'' \<notin> dom (AMBIG sample_dataset)
        \<and> ''<unknown>'' \<notin> dom (COMPAT sample_dataset)"
    by (simp add: sample_dataset_def)
  with inst have "has_nvenc_h264 sample_dataset \<lparr>index = -1, name = ''<unknown>'', uuid = ''0''\<rparr>
      = Inr False"
    by blast
  with p g show ?thesis by blast
qed

section \<open>The command resolver\<close>

lemma split_on_first:
  "\<exists>rest. split_on sep s = takeWhile (\<lambda>c. c \<noteq> sep) s # rest"
proof (cases "dropWhile (\<lambda>c. c \<noteq> sep) s")
  case Nil
  then have t: "takeWhile (\<lambda>c. c \<noteq> sep) s = s"
    by (metis append_Nil2 takeWhile_dropWhile_id)
  have "split_on sep s = takeWhile (\<lambda>c. c \<noteq> sep) s # []"
    unfolding t by (subst split_on.simps) (simp only: Nil list.case)
  then show ?thesis by blast
next
  case (Cons x rest)
  have "split_on sep s = takeWhile (\<lambda>c. c \<noteq> sep) s # split_on sep rest"
    by (subst split_on.simps) (simp only: Cons list.case)
  then show ?thesis by blast
qed

lemma find_command_eq:
  "find_command run cmd =
     (if returncode (run [''where'', cmd]) \<noteq> 0 then None
      else Some (strip (takeWhile (\<lambda>c. c \<noteq> CHR 0x0A) (stdout (run [''where'', cmd])))))"
proof -
  obtain rest where "split_on CHR 0x0A (stdout (run [''where'', cmd]))
      = takeWhile (\<lambda>c. c \<noteq> CHR 0x0A) (stdout (run [''where'', cmd])) # rest"
    using split_on_first by blast
  then show ?thesis by (simp add: find_command_def Let_def)
qed

text \<open>
  C8. \<open>find_command\<close> returns \<open>None\<close> when the locator ends with a non-zero code. When
  the locator ends with code 0 and prints nothing, the list of the split output is
  \<open>['']\<close>, the test \<open>len(commands) == 0\<close> is false, and the empty string is
  returned, not \<open>None\<close>.
\<close>

theorem find_command_empty_output:
  "find_command (\<lambda>args. \<lparr>returncode = 0, stdout = '''', stderr = ''''\<rparr>) ''nvidia-smi''
     = Some ''''"
  by (simp add: find_command_eq strip_def lstrip_def rstrip_def)

section \<open>The count of GPUs\<close>

text \<open>
  C5. \<open>number_of_nvenc_gpus\<close> does not absorb every output of the diagnostic tool: a
  line \<open>Driver Version: 450\<close>, with no minor part, matches the version pattern,
  whose second component is optional; the version splits into one number, and
  unpacking it into \<open>major, minor\<close> raises \<open>ValueError\<close>.
\<close>

theorem version_without_minor_raises:
  "number_of_nvenc_gpus sample_dataset
     (sample_run ''nvidia-smi.exe'' ''NVIDIA-SMI 450  Driver Version: 450  CUDA Version: 11.0'' '''')
   = (Inl ValueError, [[''where'', ''nvidia-smi''], [''nvidia-smi.exe'']])"
  by code_simp

text \<open>
  The gate on the driver version, when the version has both of its parts.
\<close>

lemma driver_version_gate:
  "find_command run ''nvidia-smi'' = Some nvidia_smi
   \<Longrightarrow> returncode (run [nvidia_smi]) = 0
   \<Longrightarrow> driver_version (nonblank_lines (stdout (run [nvidia_smi]))) = Some version
   \<Longrightarrow> version_numbers version = Inr (major, minor)
   \<Longrightarrow> (major < 450 \<longrightarrow>
          number_of_nvenc_gpus ds run = (Inr 0, [[''where'', ''nvidia-smi''], [nvidia_smi]]))
     \<and> (450 \<le> major \<longrightarrow>
          snd (number_of_nvenc_gpus ds run)
            = [[''where'', ''nvidia-smi''], [nvidia_smi], [nvidia_smi, ''-L'']]
          \<and> fst (number_of_nvenc_gpus ds run)
            = (if returncode (run [nvidia_smi, ''-L'']) \<noteq> 0 then Inr 0
               else (case GPUs (stdout (run [nvidia_smi, ''-L''])) of
                       Inl e \<Rightarrow> Inl e
                     | Inr gpus \<Rightarrow>
                         (case nvenc_gpus ds gpus of
                            Inl e \<Rightarrow> Inl e
                          | Inr cores \<Rightarrow> Inr (int (length cores))))))"
  by (simp add: number_of_nvenc_gpus_def Let_def split: sum.splits)

text \<open>
  C6. The gate holds for the versions \<open>440.10\<close> and \<open>450.00\<close>: the first gives 0
  without running \<open>nvidia-smi -L\<close>, the second runs the listing and counts its GPUs.
  It does not hold for every first matching line with a major version below 450: for
  \<open>Driver Version: 440\<close>, with no minor part, the unpacking into \<open>major, minor\<close>
  raises \<open>ValueError\<close> before the comparison with 450, and no 0 is returned.
\<close>

theorem gate_without_minor_raises:
  "number_of_nvenc_gpus sample_dataset
     (sample_run ''nvidia-smi.exe'' ''Driver Version: 440''
        ''GPU 0: GeForce RTX 3080 (UUID: GPU-1234abcd)'')
     = (Inl ValueError, [[''where'', ''nvidia-smi''], [''nvidia-smi.exe'']])
   \<and> number_of_nvenc_gpus sample_dataset
     (sample_run ''nvidia-smi.exe'' ''Driver Version: 440.10''
        ''GPU 0: GeForce RTX 3080 (UUID: GPU-1234abcd)'')
     = (Inr 0, [[''where'', ''nvidia-smi''], [''nvidia-smi.exe'']])
   \<and> number_of_nvenc_gpus sample_dataset
     (sample_run ''nvidia-smi.exe'' ''Driver Version: 450.00''
        ''GPU 0: GeForce RTX 3080 (UUID: GPU-1234abcd)'')
     = (Inr 1, [[''where'', ''nvidia-smi''], [''nvidia-smi.exe''], [''nvidia-smi.exe'', ''-L'']])"
  by code_simp

end
